theory Spec2Isabelle
  imports Main
begin

section \<open>The Pythagorean cache of \<^verbatim>\<open>src/index.ts\<close>\<close>

text \<open>
  The class \<^verbatim>\<open>PythagoreanCache<T>\<close> buffers pushed items in \<^verbatim>\<open>queue\<close> and
  emits them as a \<^verbatim>\<open>'dump'\<close> event when the queue reaches \<^verbatim>\<open>opts.size\<close> or when
  the interval timer fires. Every method is modelled as a function on an explicit state.

  Numbers: \<^verbatim>\<open>opts.size\<close> and \<^verbatim>\<open>opts.interval\<close> are optional JavaScript numbers.
  They are modelled as \<open>int option\<close> (integer values only; \<open>None\<close> is
  \<^verbatim>\<open>undefined\<close>). A condition on such a value (\<^verbatim>\<open>!opts.size\<close>,
  \<^verbatim>\<open>this.opts.size ? a : b\<close>, \<^verbatim>\<open>this.opts.size || this.length\<close>) tests its
  truthiness: \<^verbatim>\<open>undefined\<close> and \<^verbatim>\<open>0\<close> are falsy, every other integer is truthy.
\<close>

subsection \<open>Options\<close>

record PythagoreanCacheOpts =
  size_opt :: "int option"
  interval_opt :: "int option"

definition truthy :: "int option \<Rightarrow> bool" where
  "truthy v = (case v of None \<Rightarrow> False | Some n \<Rightarrow> n \<noteq> 0)"

subsection \<open>The event emitter the class extends\<close>

text \<open>
  The class inherits \<^verbatim>\<open>on\<close>, \<^verbatim>\<open>once\<close> and \<^verbatim>\<open>emit\<close> from Node's
  \<^verbatim>\<open>EventEmitter\<close>. A listener is modelled by whether it was registered with
  \<^verbatim>\<open>once\<close> and by the batches on which its callback throws. Listeners are passive:
  a callback that calls back into the cache is outside this model.

  \<^verbatim>\<open>emit\<close> calls the listeners synchronously in registration order; a \<^verbatim>\<open>once\<close>
  listener is removed just before it is called; an exception of a callback leaves
  \<^verbatim>\<open>emit\<close> at once, the later listeners are neither called nor removed.
\<close>

datatype 'a listener = Listener (once: bool) (throws: "'a list \<Rightarrow> bool")

datatype 'r outcome = Returned 'r | Thrown

text \<open>
  Every call of \<^verbatim>\<open>emit('dump', items)\<close> is recorded: the batch it was given, the
  queue as it stands while the listeners run, and how many listeners were called.
\<close>

record 'a notification =
  batch :: "'a list"
  visible :: "'a list"
  invoked :: nat

fun call_listeners :: "'a listener list \<Rightarrow> 'a list \<Rightarrow> 'a listener list \<times> nat \<times> bool" where
  "call_listeners [] items = ([], 0, False)"
| "call_listeners (l # ls) items =
     (let keep = (if once l then [] else [l]) in
      if throws l items then (keep @ ls, 1, True)
      else (case call_listeners ls items of
              (ls', n, t) \<Rightarrow> (keep @ ls', Suc n, t)))"

subsection \<open>The cache\<close>

text \<open>
  \<open>interval\<close> is the field \<^verbatim>\<open>this.interval\<close>, the handle of the last timer armed
  (\<open>None\<close> while it is undefined). \<open>timers\<close> holds the timers of the host that this
  instance armed and that have not been cleared, each with its period; \<open>next_handle\<close>
  is the next fresh handle.
\<close>

record 'a PythagoreanCache =
  queue :: "'a list"
  opts :: PythagoreanCacheOpts
  interval :: "nat option"
  timers :: "(nat \<times> int) list"
  next_handle :: nat
  listeners :: "'a listener list"
  trace :: "'a notification list"

datatype error = ConfigurationError

definition on :: "'a listener \<Rightarrow> 'a PythagoreanCache \<Rightarrow> 'a PythagoreanCache" where
  "on l s = s\<lparr>listeners := listeners s @ [l]\<rparr>"

definition emit :: "'a list \<Rightarrow> 'a PythagoreanCache \<Rightarrow> 'a PythagoreanCache \<times> unit outcome" where
  "emit items s =
     (case call_listeners (listeners s) items of
        (ls', n, t) \<Rightarrow>
          (s\<lparr>listeners := ls',
             trace := trace s @ [\<lparr>batch = items, visible = queue s, invoked = n\<rparr>]\<rparr>,
           if t then Thrown else Returned ()))"

text \<open>The getter \<^verbatim>\<open>length\<close>.\<close>

definition length_cache :: "'a PythagoreanCache \<Rightarrow> nat" where
  "length_cache s = length (queue s)"

text \<open>
  \<^verbatim>\<open>Array.prototype.splice(0, deleteCount)\<close>: the count is clamped to
  \<open>0 .. length\<close>; the removed prefix is returned and the array keeps the rest.
\<close>

definition splice0 :: "int \<Rightarrow> 'a list \<Rightarrow> 'a list \<times> 'a list" where
  "splice0 deleteCount xs =
     (let k = min (nat (max deleteCount 0)) (length xs) in (take k xs, drop k xs))"

definition checkLimit :: "'a PythagoreanCache \<Rightarrow> bool" where
  "checkLimit s =
     (case size_opt (opts s) of
        None \<Rightarrow> False
      | Some n \<Rightarrow> if n \<noteq> 0 then n \<le> int (length_cache s) else False)"

text \<open>\<^verbatim>\<open>this.opts.size || this.length\<close>\<close>

definition dump_width :: "'a PythagoreanCache \<Rightarrow> int" where
  "dump_width s =
     (case size_opt (opts s) of
        None \<Rightarrow> int (length_cache s)
      | Some n \<Rightarrow> if n \<noteq> 0 then n else int (length_cache s))"

definition dump :: "'a PythagoreanCache \<Rightarrow> 'a PythagoreanCache \<times> unit outcome" where
  "dump s =
     (if 0 < length_cache s then
        (case splice0 (dump_width s) (queue s) of
           (items, rest) \<Rightarrow> emit items (s\<lparr>queue := rest\<rparr>))
      else (s, Returned ()))"

definition push :: "'a list \<Rightarrow> 'a PythagoreanCache \<Rightarrow> 'a PythagoreanCache \<times> nat outcome" where
  "push items s =
     (let s1 = s\<lparr>queue := queue s @ items\<rparr> in
      if checkLimit s1 then
        (case dump s1 of
           (s2, Thrown) \<Rightarrow> (s2, Thrown)
         | (s2, Returned _) \<Rightarrow> (s2, Returned (length_cache s2)))
      else (s1, Returned (length_cache s1)))"

definition setSize :: "int \<Rightarrow> 'a PythagoreanCache \<Rightarrow> 'a PythagoreanCache \<times> unit outcome" where
  "setSize newSize s =
     (let s1 = s\<lparr>opts := (opts s)\<lparr>size_opt := Some newSize\<rparr>\<rparr> in
      if checkLimit s1 then dump s1 else (s1, Returned ()))"

text \<open>
  The host's \<^verbatim>\<open>clearInterval\<close> removes a timer; clearing a handle that is not armed
  does nothing. The host's \<^verbatim>\<open>setInterval\<close>, called in \<^verbatim>\<open>startInterval\<close>, arms a
  timer under a fresh handle.
\<close>

definition clearInterval :: "nat \<Rightarrow> (nat \<times> int) list \<Rightarrow> (nat \<times> int) list" where
  "clearInterval h ts = filter (\<lambda>t. fst t \<noteq> h) ts"

definition stopInterval :: "'a PythagoreanCache \<Rightarrow> 'a PythagoreanCache" where
  "stopInterval s =
     (case interval s of
        None \<Rightarrow> s
      | Some h \<Rightarrow> s\<lparr>timers := clearInterval h (timers s)\<rparr>)"

definition startInterval :: "'a PythagoreanCache \<Rightarrow> 'a PythagoreanCache" where
  "startInterval s =
     (let s1 = stopInterval s in
      case interval_opt (opts s1) of
        None \<Rightarrow> s1
      | Some ms \<Rightarrow>
          if ms \<noteq> 0 then
            s1\<lparr>interval := Some (next_handle s1),
               timers := timers s1 @ [(next_handle s1, ms)],
               next_handle := Suc (next_handle s1)\<rparr>
          else s1)"

definition setInterval :: "int \<Rightarrow> 'a PythagoreanCache \<Rightarrow> 'a PythagoreanCache" where
  "setInterval newInterval s =
     startInterval (s\<lparr>opts := (opts s)\<lparr>interval_opt := Some newInterval\<rparr>\<rparr>)"

text \<open>The timer's callback \<^verbatim>\<open>() => { this.dump(); }\<close>, run for a timer that is still armed.\<close>

definition tick :: "nat \<Rightarrow> 'a PythagoreanCache \<Rightarrow> 'a PythagoreanCache \<times> unit outcome" where
  "tick h s = (if map_of (timers s) h = None then (s, Returned ()) else dump s)"

text \<open>The fields as the class initialises them, before the constructor's body runs.\<close>

definition initial :: "PythagoreanCacheOpts \<Rightarrow> 'a PythagoreanCache" where
  "initial cfg = \<lparr>queue = [], opts = cfg, interval = None, timers = [], next_handle = 0,
                listeners = [], trace = []\<rparr>"

definition constructor :: "PythagoreanCacheOpts \<Rightarrow> error + 'a PythagoreanCache" where
  "constructor cfg =
     (if \<not> truthy (size_opt cfg) \<and> \<not> truthy (interval_opt cfg) then Inl ConfigurationError
      else Inr (startInterval (initial cfg)))"

text \<open>\<^verbatim>\<open>pushItems.forEach((item) => cq.push(item))\<close>: an exception ends the loop.\<close>

fun push_each :: "'a list \<Rightarrow> 'a PythagoreanCache \<Rightarrow> 'a PythagoreanCache \<times> unit outcome" where
  "push_each [] s = (s, Returned ())"
| "push_each (x # xs) s =
     (case push [x] s of
        (s', Thrown) \<Rightarrow> (s', Thrown)
      | (s', Returned _) \<Rightarrow> push_each xs s')"

subsection \<open>Facts about the emitter and the dump\<close>

lemma emit_fst:
  "fst (emit b s) =
     s\<lparr>listeners := fst (call_listeners (listeners s) b),
       trace := trace s @ [\<lparr>batch = b, visible = queue s,
                             invoked = fst (snd (call_listeners (listeners s) b))\<rparr>]\<rparr>"
  by (simp add: emit_def split: prod.split)

lemma emit_snd:
  "snd (emit b s) = (if snd (snd (call_listeners (listeners s) b)) then Thrown else Returned ())"
  by (simp add: emit_def split: prod.split)

lemma call_listeners_quiet:
  "(\<And>l. l \<in> set ls \<Longrightarrow> \<not> throws l b) \<Longrightarrow> \<not> snd (snd (call_listeners ls b))"
  by (induction ls) (auto simp: Let_def split: prod.split)

lemma dump_nonempty:
  assumes "queue s \<noteq> []"
  shows "dump s =
           emit (take (min (nat (max (dump_width s) 0)) (length (queue s))) (queue s))
                (s\<lparr>queue := drop (min (nat (max (dump_width s) 0)) (length (queue s))) (queue s)\<rparr>)"
  using assms by (simp add: dump_def length_cache_def splice0_def Let_def)

lemma dump_empty: "queue s = [] \<Longrightarrow> dump s = (s, Returned ())"
  by (simp add: dump_def length_cache_def)

lemma dump_quiet:
  "(\<And>l b. l \<in> set (listeners s) \<Longrightarrow> \<not> throws l b) \<Longrightarrow> snd (dump s) = Returned ()"
  by (cases "queue s = []") (simp_all add: dump_empty dump_nonempty emit_snd call_listeners_quiet)

lemma dump_fst_queue:
  "queue (fst (dump s)) = drop (min (nat (max (dump_width s) 0)) (length (queue s))) (queue s)"
  by (cases "queue s = []") (simp_all add: dump_empty dump_nonempty emit_fst)

lemma push_fst:
  "fst (push items s) =
     (if checkLimit (s\<lparr>queue := queue s @ items\<rparr>) then fst (dump (s\<lparr>queue := queue s @ items\<rparr>))
      else s\<lparr>queue := queue s @ items\<rparr>)"
  by (simp add: push_def Let_def split: prod.split outcome.split)

lemma push_snd:
  "snd (push items s) =
     (if checkLimit (s\<lparr>queue := queue s @ items\<rparr>) then
        (case snd (dump (s\<lparr>queue := queue s @ items\<rparr>)) of
           Thrown \<Rightarrow> Thrown
         | Returned u \<Rightarrow> Returned (length (queue (fst (dump (s\<lparr>queue := queue s @ items\<rparr>))))))
      else Returned (length (queue s) + length items))"
  by (simp add: push_def Let_def length_cache_def split: prod.split outcome.split)

lemma push_below:
  "size_opt (opts s) = Some n \<Longrightarrow> int (length (queue s) + length items) < n \<Longrightarrow>
     push items s = (s\<lparr>queue := queue s @ items\<rparr>, Returned (length (queue s) + length items))"
  by (simp add: push_def checkLimit_def length_cache_def Let_def)

lemma push_each_below:
  "size_opt (opts s) = Some n \<Longrightarrow> int (length (queue s) + length xs) < n \<Longrightarrow>
     push_each xs s = (s\<lparr>queue := queue s @ xs\<rparr>, Returned ())"
proof (induction xs arbitrary: s)
  case Nil
  then show ?case by simp
next
  case (Cons x xs)
  from Cons.prems have one: "int (length (queue s) + length [x]) < n" by simp
  have step: "push [x] s = (s\<lparr>queue := queue s @ [x]\<rparr>, Returned (length (queue s) + length [x]))"
    using push_below [OF Cons.prems(1) one] .
  have rest: "push_each xs (s\<lparr>queue := queue s @ [x]\<rparr>)
                = (s\<lparr>queue := queue s @ [x], queue := (queue s @ [x]) @ xs\<rparr>, Returned ())"
    using Cons.IH [of "s\<lparr>queue := queue s @ [x]\<rparr>"] Cons.prems by simp
  from step rest show ?case by simp
qed

lemma push_each_snoc:
  "fst (push_each xs s) = s' \<Longrightarrow> snd (push_each xs s) = Returned () \<Longrightarrow>
     fst (push_each (xs @ [x]) s) = fst (push [x] s')"
proof (induction xs arbitrary: s)
  case Nil
  then show ?case by (simp split: prod.split outcome.split)
next
  case (Cons y ys)
  then show ?case by (auto split: prod.splits outcome.splits)
qed

section \<open>Claims\<close>

subsection \<open>Dump on an empty queue\<close>

text \<open>
  C3. Calling \<^verbatim>\<open>dump\<close> when the queue is empty is a no-op: the call returns normally
  and the whole state is unchanged. The listeners and the record of emitted batches
  are part of the state, so no observer is called and no batch, empty or not, is emitted.
\<close>

theorem dump_empty_is_noop:
  "queue s = [] \<Longrightarrow> dump s = (s, Returned ())"
  by (simp add: dump_def length_cache_def)

theorem dump_empty_is_noop_witness:
  "queue (on (Listener False (\<lambda>b. True)) (initial \<lparr>size_opt = Some 10, interval_opt = None\<rparr>)
            :: nat PythagoreanCache) = []
   \<and> dump (on (Listener False (\<lambda>b. True)) (initial \<lparr>size_opt = Some 10, interval_opt = None\<rparr>)
            :: nat PythagoreanCache)
     = (on (Listener False (\<lambda>b. True)) (initial \<lparr>size_opt = Some 10, interval_opt = None\<rparr>),
        Returned ())"
  using dump_empty_is_noop
    [of "on (Listener False (\<lambda>b. True)) (initial \<lparr>size_opt = Some 10, interval_opt = None\<rparr>)
           :: nat PythagoreanCache"]
  by (simp add: on_def initial_def)

subsection \<open>The size trigger\<close>

text \<open>
  C7. \<^verbatim>\<open>checkLimit\<close> returns true if and only if a size limit is configured
  (\<^verbatim>\<open>opts.size\<close> is a number that the test \<^verbatim>\<open>this.opts.size ? ... : false\<close> accepts,
  that is, one other than 0) and the queue length is at least that limit; it returns
  false whenever \<^verbatim>\<open>opts.size\<close> is undefined. It is a function from the state to a
  boolean: it returns no state, so it changes none.
\<close>

theorem checkLimit_iff:
  "(checkLimit s \<longleftrightarrow>
      (\<exists>n. size_opt (opts s) = Some n \<and> n \<noteq> 0 \<and> n \<le> int (length (queue s))))
   \<and> (size_opt (opts s) = None \<longrightarrow> \<not> checkLimit s)"
  by (auto simp: checkLimit_def length_cache_def split: option.splits)

theorem checkLimit_iff_witness:
  "checkLimit ((initial \<lparr>size_opt = Some 2, interval_opt = None\<rparr>)\<lparr>queue := [7, 8 :: nat]\<rparr>)
   \<and> \<not> checkLimit ((initial \<lparr>size_opt = Some 3, interval_opt = None\<rparr>)\<lparr>queue := [7, 8 :: nat]\<rparr>)
   \<and> \<not> checkLimit ((initial \<lparr>size_opt = None, interval_opt = Some 10\<rparr>)\<lparr>queue := [7, 8 :: nat]\<rparr>)"
  using checkLimit_iff
          [of "(initial \<lparr>size_opt = Some 2, interval_opt = None\<rparr>)\<lparr>queue := [7, 8 :: nat]\<rparr>"]
        checkLimit_iff
          [of "(initial \<lparr>size_opt = Some 3, interval_opt = None\<rparr>)\<lparr>queue := [7, 8 :: nat]\<rparr>"]
        checkLimit_iff
          [of "(initial \<lparr>size_opt = None, interval_opt = Some 10\<rparr>)\<lparr>queue := [7, 8 :: nat]\<rparr>"]
  by (simp add: initial_def)

subsection \<open>Stopping the timer\<close>

text \<open>
  C9. \<^verbatim>\<open>stopInterval\<close> when no timer is active is a no-op. No timer is active when
  \<^verbatim>\<open>this.interval\<close> was never set, or when the handle it holds is not armed any more
  (\<^verbatim>\<open>stopInterval\<close> clears the timer and keeps the handle). The state, with its
  queue, options and timers, is unchanged, and a second \<^verbatim>\<open>stopInterval\<close> changes
  nothing after the first. The function has no exceptional result.
\<close>

theorem stopInterval_inactive_noop:
  "(interval s = None \<or> (\<exists>h. interval s = Some h \<and> map_of (timers s) h = None)
      \<longrightarrow> stopInterval s = s)
   \<and> stopInterval (stopInterval s) = stopInterval s"
proof -
  have idle: "filter (\<lambda>t. fst t \<noteq> h) ts = ts" if "map_of ts h = None"
    for h :: nat and ts :: "(nat \<times> int) list"
    using that by (induction ts) (auto split: if_splits)
  have first: "stopInterval s = s"
    if "interval s = None \<or> (\<exists>h. interval s = Some h \<and> map_of (timers s) h = None)"
    using that by (auto simp: stopInterval_def clearInterval_def idle)
  have twice: "stopInterval (stopInterval s) = stopInterval s"
    by (simp add: stopInterval_def clearInterval_def split: option.split)
  from first twice show ?thesis by blast
qed

theorem stopInterval_inactive_noop_witness:
  "interval (initial \<lparr>size_opt = Some 10, interval_opt = None\<rparr> :: nat PythagoreanCache) = None
   \<and> stopInterval (initial \<lparr>size_opt = Some 10, interval_opt = None\<rparr> :: nat PythagoreanCache)
       = initial \<lparr>size_opt = Some 10, interval_opt = None\<rparr>
   \<and> interval (stopInterval (startInterval
        (initial \<lparr>size_opt = None, interval_opt = Some 10\<rparr> :: nat PythagoreanCache))) = Some 0
   \<and> timers (stopInterval (startInterval
        (initial \<lparr>size_opt = None, interval_opt = Some 10\<rparr> :: nat PythagoreanCache))) = []
   \<and> stopInterval (stopInterval (startInterval
        (initial \<lparr>size_opt = None, interval_opt = Some 10\<rparr> :: nat PythagoreanCache)))
       = stopInterval (startInterval (initial \<lparr>size_opt = None, interval_opt = Some 10\<rparr>))"
  using stopInterval_inactive_noop
          [of "initial \<lparr>size_opt = Some 10, interval_opt = None\<rparr> :: nat PythagoreanCache"]
        stopInterval_inactive_noop
          [of "stopInterval (startInterval
                 (initial \<lparr>size_opt = None, interval_opt = Some 10\<rparr> :: nat PythagoreanCache))"]
  by (simp add: initial_def startInterval_def stopInterval_def clearInterval_def)

subsection \<open>A size of 0\<close>

text \<open>
  C10. A configured size of 0 behaves as if no size were configured: \<^verbatim>\<open>checkLimit\<close>
  is false whatever the queue holds, \<^verbatim>\<open>dump\<close> does what it does with
  \<^verbatim>\<open>opts.size\<close> undefined (on a non-empty queue it emits the whole queue and leaves
  it empty), and the constructor rejects \<^verbatim>\<open>{size: 0}\<close> as it rejects \<^verbatim>\<open>{}\<close>.
\<close>

theorem size_zero_as_unset:
  "size_opt (opts (s :: 'a PythagoreanCache)) = Some 0 \<Longrightarrow>
     \<not> checkLimit (s\<lparr>queue := q\<rparr>)
     \<and> dump s = (case dump (s\<lparr>opts := (opts s)\<lparr>size_opt := None\<rparr>\<rparr>) of
                   (t, r) \<Rightarrow> (t\<lparr>opts := opts s\<rparr>, r))
     \<and> (queue s \<noteq> [] \<longrightarrow>
          queue (fst (dump s)) = []
          \<and> map batch (trace (fst (dump s))) = map batch (trace s) @ [queue s])
     \<and> (constructor \<lparr>size_opt = Some 0, interval_opt = None\<rparr> :: error + 'a PythagoreanCache)
         = Inl ConfigurationError
     \<and> (constructor \<lparr>size_opt = None, interval_opt = None\<rparr> :: error + 'a PythagoreanCache)
         = Inl ConfigurationError"
proof -
  assume zero: "size_opt (opts s) = Some 0"
  have a: "\<not> checkLimit (s\<lparr>queue := q\<rparr>)"
    using zero by (simp add: checkLimit_def)
  have b: "dump s = (case dump (s\<lparr>opts := (opts s)\<lparr>size_opt := None\<rparr>\<rparr>) of
                       (t, r) \<Rightarrow> (t\<lparr>opts := opts s\<rparr>, r))"
    using zero
    by (simp add: dump_def dump_width_def length_cache_def splice0_def emit_def Let_def
             split: prod.split)
  have c: "queue (fst (dump s)) = []
           \<and> map batch (trace (fst (dump s))) = map batch (trace s) @ [queue s]"
    if "queue s \<noteq> []"
    using zero that
    by (simp add: dump_nonempty emit_fst dump_width_def length_cache_def)
  have d: "(constructor \<lparr>size_opt = Some 0, interval_opt = None\<rparr> :: error + 'a PythagoreanCache)
             = Inl ConfigurationError"
    by (simp add: constructor_def truthy_def)
  have e: "(constructor \<lparr>size_opt = None, interval_opt = None\<rparr> :: error + 'a PythagoreanCache)
             = Inl ConfigurationError"
    by (simp add: constructor_def truthy_def)
  from a b c d e show ?thesis by blast
qed

theorem size_zero_as_unset_witness:
  "size_opt (opts ((initial \<lparr>size_opt = Some 0, interval_opt = Some 10\<rparr>)\<lparr>queue := [1, 2, 3 :: nat]\<rparr>))
     = Some 0
   \<and> \<not> checkLimit ((initial \<lparr>size_opt = Some 0, interval_opt = Some 10\<rparr>)\<lparr>queue := [1, 2, 3 :: nat]\<rparr>)
   \<and> queue (fst (dump ((initial \<lparr>size_opt = Some 0, interval_opt = Some 10\<rparr>)
                          \<lparr>queue := [1, 2, 3 :: nat]\<rparr>))) = []
   \<and> map batch (trace (fst (dump ((initial \<lparr>size_opt = Some 0, interval_opt = Some 10\<rparr>)
                                      \<lparr>queue := [1, 2, 3 :: nat]\<rparr>)))) = [[1, 2, 3]]"
proof -
  let ?s = "(initial \<lparr>size_opt = Some 0, interval_opt = Some 10\<rparr>)\<lparr>queue := [1, 2, 3 :: nat]\<rparr>"
  have zero: "size_opt (opts ?s) = Some 0" and filled: "queue ?s \<noteq> []"
    by (simp_all add: initial_def)
  from size_zero_as_unset [OF zero, of "[1, 2, 3]"] filled
  have "\<not> checkLimit (?s\<lparr>queue := [1, 2, 3]\<rparr>) \<and> queue (fst (dump ?s)) = []
        \<and> map batch (trace (fst (dump ?s))) = map batch (trace ?s) @ [queue ?s]"
    by blast
  with zero show ?thesis
    by (simp add: initial_def)
qed

subsection \<open>Construction\<close>

text \<open>
  C4, as the code has it. The constructor throws exactly when \<^verbatim>\<open>opts.size\<close> and
  \<^verbatim>\<open>opts.interval\<close> are both falsy, each one undefined or 0. When at least one of
  them is a number other than 0 it returns an instance with an empty queue, the
  options as given, no listener, nothing emitted, and a timer armed exactly when the
  interval is a number other than 0.
\<close>

theorem constructor_fails_iff_both_falsy:
  "((constructor cfg :: error + 'a PythagoreanCache) = Inl ConfigurationError \<longleftrightarrow>
      (size_opt cfg = None \<or> size_opt cfg = Some 0)
      \<and> (interval_opt cfg = None \<or> interval_opt cfg = Some 0))
   \<and> ((\<exists>n. size_opt cfg = Some n \<and> n \<noteq> 0) \<or> (\<exists>ms. interval_opt cfg = Some ms \<and> ms \<noteq> 0) \<longrightarrow>
        (\<exists>s :: 'a PythagoreanCache.
            constructor cfg = Inr s \<and> queue s = [] \<and> opts s = cfg \<and> listeners s = []
            \<and> trace s = []
            \<and> timers s = (case interval_opt cfg of
                             None \<Rightarrow> []
                           | Some ms \<Rightarrow> if ms \<noteq> 0 then [(0, ms)] else [])))"
  by (auto simp: constructor_def truthy_def startInterval_def stopInterval_def initial_def
           split: option.splits)

theorem constructor_fails_iff_both_falsy_witness:
  "(constructor \<lparr>size_opt = None, interval_opt = Some 0\<rparr> :: error + nat PythagoreanCache)
     = Inl ConfigurationError
   \<and> (\<exists>s :: nat PythagoreanCache.
         constructor \<lparr>size_opt = Some 10, interval_opt = None\<rparr> = Inr s \<and> queue s = []
         \<and> timers s = [])
   \<and> (\<exists>s :: nat PythagoreanCache.
         constructor \<lparr>size_opt = None, interval_opt = Some 10\<rparr> = Inr s \<and> queue s = []
         \<and> timers s = [(0, 10)])"
  using constructor_fails_iff_both_falsy
          [where ?'a = nat, of "\<lparr>size_opt = None, interval_opt = Some 0\<rparr>"]
        constructor_fails_iff_both_falsy
          [where ?'a = nat, of "\<lparr>size_opt = Some 10, interval_opt = None\<rparr>"]
        constructor_fails_iff_both_falsy
          [where ?'a = nat, of "\<lparr>size_opt = None, interval_opt = Some 10\<rparr>"]
  by auto

text \<open>
  C4 as stated fails: \<^verbatim>\<open>new PythagoreanCache({interval: 0})\<close> has its interval set,
  and the constructor throws.
\<close>

theorem constructor_interval_zero_counterexample:
  "\<not> ((constructor \<lparr>size_opt = None, interval_opt = Some 0\<rparr> :: error + nat PythagoreanCache)
          = Inl ConfigurationError
        \<longleftrightarrow> size_opt \<lparr>size_opt = None, interval_opt = Some 0\<rparr> = None
             \<and> interval_opt \<lparr>size_opt = None, interval_opt = Some 0\<rparr> = None)"
  by (simp add: constructor_def truthy_def)

subsection \<open>What a dump extracts\<close>

text \<open>
  C2. On a non-empty queue one call of \<^verbatim>\<open>dump\<close> emits exactly one batch. With a
  size limit \<open>n\<close> (a positive integer) the batch is the first \<open>min n (length queue)\<close>
  items, in queue order, and the items behind them stay queued in their order. With
  no size limit (\<^verbatim>\<open>opts.size\<close> undefined, or 0, which \<^verbatim>\<open>this.opts.size || this.length\<close>
  treats alike) the batch is the whole queue and the queue is left empty.
\<close>

theorem dump_extracts_front:
  "queue (s :: 'a PythagoreanCache) \<noteq> [] \<Longrightarrow>
     (\<forall>n. size_opt (opts s) = Some n \<and> 0 < n \<longrightarrow>
        map batch (trace (fst (dump s)))
          = map batch (trace s) @ [take (min (nat n) (length (queue s))) (queue s)]
        \<and> queue (fst (dump s)) = drop (min (nat n) (length (queue s))) (queue s))
     \<and> (size_opt (opts s) = None \<or> size_opt (opts s) = Some 0 \<longrightarrow>
          map batch (trace (fst (dump s))) = map batch (trace s) @ [queue s]
          \<and> queue (fst (dump s)) = [])"
  by (auto simp: dump_nonempty emit_fst dump_width_def length_cache_def)

theorem dump_extracts_front_witness:
  "map batch (trace (fst (dump
      ((initial \<lparr>size_opt = Some 2, interval_opt = None\<rparr>)\<lparr>queue := [5, 6, 7 :: nat]\<rparr>))))
     = [[5, 6]]
   \<and> queue (fst (dump
      ((initial \<lparr>size_opt = Some 2, interval_opt = None\<rparr>)\<lparr>queue := [5, 6, 7 :: nat]\<rparr>)))
     = [7]
   \<and> map batch (trace (fst (dump
      ((initial \<lparr>size_opt = None, interval_opt = Some 10\<rparr>)\<lparr>queue := [5, 6, 7 :: nat]\<rparr>))))
     = [[5, 6, 7]]
   \<and> queue (fst (dump
      ((initial \<lparr>size_opt = None, interval_opt = Some 10\<rparr>)\<lparr>queue := [5, 6, 7 :: nat]\<rparr>)))
     = []"
  using dump_extracts_front
          [of "(initial \<lparr>size_opt = Some 2, interval_opt = None\<rparr>)\<lparr>queue := [5, 6, 7 :: nat]\<rparr>"]
        dump_extracts_front
          [of "(initial \<lparr>size_opt = None, interval_opt = Some 10\<rparr>)\<lparr>queue := [5, 6, 7 :: nat]\<rparr>"]
  by (simp add: initial_def)

text \<open>
  C8. In a dump that notifies, \<^verbatim>\<open>splice\<close> has finished when \<^verbatim>\<open>emit\<close> starts: the
  queue that stands while the listeners run is the old queue without the batch, and
  it is the queue the dump leaves behind, whether the dump returns or a listener
  throws.
\<close>

theorem dump_extracts_before_notifying:
  "queue (s :: 'a PythagoreanCache) \<noteq> [] \<Longrightarrow>
     \<exists>e. trace (fst (dump s)) = trace s @ [e]
         \<and> batch e @ visible e = queue s
         \<and> queue (fst (dump s)) = visible e"
  by (simp add: dump_nonempty emit_fst)

theorem dump_extracts_before_notifying_witness:
  "snd (dump (on (Listener False (\<lambda>b. True))
               ((initial \<lparr>size_opt = Some 2, interval_opt = None\<rparr>)\<lparr>queue := [5, 6, 7 :: nat]\<rparr>)))
     = Thrown
   \<and> (\<exists>e. trace (fst (dump (on (Listener False (\<lambda>b. True))
               ((initial \<lparr>size_opt = Some 2, interval_opt = None\<rparr>)\<lparr>queue := [5, 6, 7 :: nat]\<rparr>))))
             = [e]
           \<and> batch e @ visible e = [5, 6, 7]
           \<and> queue (fst (dump (on (Listener False (\<lambda>b. True))
               ((initial \<lparr>size_opt = Some 2, interval_opt = None\<rparr>)\<lparr>queue := [5, 6, 7 :: nat]\<rparr>))))
               = visible e)
   \<and> queue (fst (dump (on (Listener False (\<lambda>b. True))
               ((initial \<lparr>size_opt = Some 2, interval_opt = None\<rparr>)\<lparr>queue := [5, 6, 7 :: nat]\<rparr>))))
       = [7]"
proof -
  let ?s = "on (Listener False (\<lambda>b. True))
              ((initial \<lparr>size_opt = Some 2, interval_opt = None\<rparr>)\<lparr>queue := [5, 6, 7 :: nat]\<rparr>)"
  have filled: "queue ?s \<noteq> []" and before: "queue ?s = [5, 6, 7]" and log: "trace ?s = []"
    by (simp_all add: on_def initial_def)
  have thrown: "snd (dump ?s) = Thrown"
    by (simp add: dump_nonempty emit_snd on_def initial_def)
  have rest: "queue (fst (dump ?s)) = [7]"
    by (simp add: dump_nonempty emit_fst dump_width_def length_cache_def on_def initial_def)
  from dump_extracts_before_notifying [OF filled] thrown rest before log
  show ?thesis by simp
qed

subsection \<open>Changing the size\<close>

text \<open>
  C6, as the code has it. \<^verbatim>\<open>setSize\<close> with a positive new size that is at most the
  current queue length stores the new size and dumps at once: exactly one batch is
  emitted, it is the first \<open>newSize\<close> items, and the items behind them stay queued.
\<close>

theorem setSize_positive_dumps:
  "0 < newSize \<Longrightarrow> newSize \<le> int (length (queue (s :: 'a PythagoreanCache))) \<Longrightarrow>
     size_opt (opts (fst (setSize newSize s))) = Some newSize
     \<and> map batch (trace (fst (setSize newSize s)))
         = map batch (trace s) @ [take (nat newSize) (queue s)]
     \<and> length (take (nat newSize) (queue s)) = nat newSize
     \<and> queue (fst (setSize newSize s)) = drop (nat newSize) (queue s)"
proof -
  assume pos: "0 < newSize" and le: "newSize \<le> int (length (queue s))"
  let ?s1 = "s\<lparr>opts := (opts s)\<lparr>size_opt := Some newSize\<rparr>\<rparr>"
  from pos le have filled: "queue ?s1 \<noteq> []" by auto
  from pos le have limit: "checkLimit ?s1"
    by (simp add: checkLimit_def length_cache_def)
  from pos le have k: "min (nat (max (dump_width ?s1) 0)) (length (queue ?s1)) = nat newSize"
    by (simp add: dump_width_def)
  have "setSize newSize s = dump ?s1"
    using limit by (simp add: setSize_def)
  also have "\<dots> = emit (take (nat newSize) (queue s)) (?s1\<lparr>queue := drop (nat newSize) (queue s)\<rparr>)"
    using dump_nonempty [OF filled] k by simp
  finally show ?thesis
    using pos le by (simp add: emit_fst)
qed

theorem setSize_positive_dumps_witness:
  "(0 :: int) < 2 \<and> 2 \<le> int (length [5, 6, 7 :: nat])
   \<and> map batch (trace (fst (setSize 2
        ((initial \<lparr>size_opt = Some 10, interval_opt = None\<rparr>)\<lparr>queue := [5, 6, 7 :: nat]\<rparr>))))
       = [[5, 6]]
   \<and> queue (fst (setSize 2
        ((initial \<lparr>size_opt = Some 10, interval_opt = None\<rparr>)\<lparr>queue := [5, 6, 7 :: nat]\<rparr>)))
       = [7]"
  using setSize_positive_dumps
          [of 2 "(initial \<lparr>size_opt = Some 10, interval_opt = None\<rparr>)\<lparr>queue := [5, 6, 7 :: nat]\<rparr>"]
  by (simp add: initial_def)

text \<open>
  C6 as stated fails at the new size 0, which is at most every queue length:
  \<^verbatim>\<open>setSize(0)\<close> on a queue of three items emits nothing and leaves the three items
  queued.
\<close>

theorem setSize_zero_counterexample:
  "queue ((initial \<lparr>size_opt = Some 10, interval_opt = None\<rparr>)\<lparr>queue := [5, 6, 7 :: nat]\<rparr>) \<noteq> []
   \<and> (0 :: int) \<le> int (length (queue
         ((initial \<lparr>size_opt = Some 10, interval_opt = None\<rparr>)\<lparr>queue := [5, 6, 7 :: nat]\<rparr>)))
   \<and> setSize 0 ((initial \<lparr>size_opt = Some 10, interval_opt = None\<rparr>)\<lparr>queue := [5, 6, 7 :: nat]\<rparr>)
       = (\<lparr>queue = [5, 6, 7], opts = \<lparr>size_opt = Some 0, interval_opt = None\<rparr>,
           interval = None, timers = [], next_handle = 0, listeners = [], trace = []\<rparr>,
          Returned ())"
  by (simp add: setSize_def checkLimit_def initial_def)

subsection \<open>Pushing\<close>

text \<open>
  C5. \<^verbatim>\<open>push\<close> returns the queue length measured after the items were appended
  and after the dump the call itself ran, if it ran one. The queue then holds the old
  queue followed by the new items, without the first \<open>size\<close> of them when the size
  trigger fired. The call returns whenever no listener throws.
\<close>

theorem push_returns_length:
  "(\<forall>r. snd (push items (s :: 'a PythagoreanCache)) = Returned r \<longrightarrow>
        r = length (queue (fst (push items s))))
   \<and> ((\<forall>l \<in> set (listeners s). \<forall>b. \<not> throws l b) \<longrightarrow>
        snd (push items s) = Returned (length (queue (fst (push items s)))))
   \<and> queue (fst (push items s)) =
        (case size_opt (opts s) of
           None \<Rightarrow> queue s @ items
         | Some n \<Rightarrow>
             if n \<noteq> 0 \<and> n \<le> int (length (queue s @ items))
             then drop (nat n) (queue s @ items) else queue s @ items)"
proof -
  let ?s1 = "s\<lparr>queue := queue s @ items\<rparr>"
  have a: "r = length (queue (fst (push items s)))" if "snd (push items s) = Returned r" for r
    using that by (auto simp: push_fst push_snd split: if_splits outcome.splits)
  have b: "snd (push items s) = Returned (length (queue (fst (push items s))))"
    if quiet: "\<forall>l \<in> set (listeners s). \<forall>b. \<not> throws l b"
  proof -
    have "snd (dump ?s1) = Returned ()"
      using quiet by (intro dump_quiet) simp
    then show ?thesis by (simp add: push_fst push_snd)
  qed
  have c: "queue (fst (push items s)) =
        (case size_opt (opts s) of
           None \<Rightarrow> queue s @ items
         | Some n \<Rightarrow>
             if n \<noteq> 0 \<and> n \<le> int (length (queue s @ items))
             then drop (nat n) (queue s @ items) else queue s @ items)"
  proof -
    have clamp: "nat (max n 0) = nat n" for n :: int
      by (simp add: max_def)
    show ?thesis
      by (auto simp: push_fst dump_fst_queue checkLimit_def dump_width_def length_cache_def clamp
               split: option.splits)
  qed
  from a b c show ?thesis by blast
qed

theorem push_returns_length_witness:
  "push [7, 8] ((initial \<lparr>size_opt = Some 3, interval_opt = None\<rparr>)\<lparr>queue := [5, 6 :: nat]\<rparr>)
     = (fst (push [7, 8] ((initial \<lparr>size_opt = Some 3, interval_opt = None\<rparr>)\<lparr>queue := [5, 6]\<rparr>)),
        Returned 1)
   \<and> queue (fst (push [7, 8]
        ((initial \<lparr>size_opt = Some 3, interval_opt = None\<rparr>)\<lparr>queue := [5, 6 :: nat]\<rparr>))) = [8]"
proof -
  let ?s = "(initial \<lparr>size_opt = Some 3, interval_opt = None\<rparr>)\<lparr>queue := [5, 6 :: nat]\<rparr>"
  have quiet: "\<forall>l \<in> set (listeners ?s). \<forall>b. \<not> throws l b"
    by (simp add: initial_def)
  from push_returns_length [of "[7, 8]" ?s] quiet
  have "snd (push [7, 8] ?s) = Returned (length (queue (fst (push [7, 8] ?s))))"
    and "queue (fst (push [7, 8] ?s)) =
           (case size_opt (opts ?s) of
              None \<Rightarrow> queue ?s @ [7, 8]
            | Some n \<Rightarrow>
                if n \<noteq> 0 \<and> n \<le> int (length (queue ?s @ [7, 8]))
                then drop (nat n) (queue ?s @ [7, 8]) else queue ?s @ [7, 8])"
    by blast+
  then have "snd (push [7, 8] ?s) = Returned 1 \<and> queue (fst (push [7, 8] ?s)) = [8]"
    by (simp add: initial_def)
  then show ?thesis
    by (metis prod.collapse)
qed

text \<open>
  C1. Let \<open>N\<close> be positive and let the cache have the size \<open>N\<close> and an empty queue (as
  the constructor leaves it). Pushing \<open>N\<close> items one at a time emits exactly one
  batch over the whole run, the \<open>N\<close> items in push order, and the length is 0 after
  the last push.
\<close>

theorem push_each_dumps_once:
  "0 < N \<Longrightarrow> length xs = N \<Longrightarrow> queue (s :: 'a PythagoreanCache) = [] \<Longrightarrow>
   size_opt (opts s) = Some (int N) \<Longrightarrow>
     map batch (trace (fst (push_each xs s))) = map batch (trace s) @ [xs]
     \<and> length (trace (fst (push_each xs s))) = Suc (length (trace s))
     \<and> length_cache (fst (push_each xs s)) = 0"
proof -
  assume pos: "0 < N" and len: "length xs = N" and empty: "queue s = []"
    and size: "size_opt (opts s) = Some (int N)"
  from pos len have "xs \<noteq> []" by auto
  then obtain ys y where xs: "xs = ys @ [y]"
    by (metis append_butlast_last_id)
  from xs len have below: "int (length (queue s) + length ys) < int N"
    using empty by simp
  have early: "push_each ys s = (s\<lparr>queue := ys\<rparr>, Returned ())"
    using push_each_below [OF size below] empty by simp
  have limit: "checkLimit (s\<lparr>queue := xs\<rparr>)"
    using size len pos by (simp add: checkLimit_def length_cache_def)
  have width: "min (nat (max (dump_width (s\<lparr>queue := xs\<rparr>)) 0)) (length xs) = length xs"
    using size len pos by (simp add: dump_width_def)
  have "fst (push_each xs s) = fst (push [y] (s\<lparr>queue := ys\<rparr>))"
    unfolding xs using early by (intro push_each_snoc) simp_all
  also have "\<dots> = fst (dump (s\<lparr>queue := xs\<rparr>))"
    using limit by (simp add: push_fst xs)
  also have "\<dots> = fst (emit xs (s\<lparr>queue := []\<rparr>))"
    using dump_nonempty [of "s\<lparr>queue := xs\<rparr>"] \<open>xs \<noteq> []\<close> width by simp
  finally show ?thesis
    by (simp add: emit_fst length_cache_def)
qed

theorem push_each_dumps_once_witness:
  "(constructor \<lparr>size_opt = Some 3, interval_opt = None\<rparr> :: error + nat PythagoreanCache)
     = Inr (initial \<lparr>size_opt = Some 3, interval_opt = None\<rparr>)
   \<and> map batch (trace (fst (push_each [5, 6, 7 :: nat]
        (initial \<lparr>size_opt = Some 3, interval_opt = None\<rparr>)))) = [[5, 6, 7]]
   \<and> length_cache (fst (push_each [5, 6, 7 :: nat]
        (initial \<lparr>size_opt = Some 3, interval_opt = None\<rparr>))) = 0"
proof -
  let ?s = "initial \<lparr>size_opt = Some 3, interval_opt = None\<rparr> :: nat PythagoreanCache"
  have built: "(constructor \<lparr>size_opt = Some 3, interval_opt = None\<rparr> :: error + nat PythagoreanCache)
                 = Inr ?s"
    by (simp add: constructor_def truthy_def startInterval_def stopInterval_def initial_def)
  have pos: "0 < (3 :: nat)" and len: "length [5, 6, 7 :: nat] = 3"
    and empty: "queue ?s = []" and size: "size_opt (opts ?s) = Some (int 3)"
    by (simp_all add: initial_def)
  from push_each_dumps_once [OF pos len empty size] built
  show ?thesis by (simp add: initial_def)
qed

end
